theory Spec2Isabelle
  imports Main "HOL-Library.Sublist" "HOL-Library.List_Lexorder"
begin

section \<open>Python strings\<close>

text \<open>
  A Python \<open>str\<close> is a sequence of Unicode code points. It is modelled as a list of
  natural numbers, one per code point, so that the lone surrogates a \<open>str\<close> may hold
  (U+D800 to U+DFFF) are values of the model. A literal of the source is written
  \<open>ascii ''...''\<close>.
\<close>

type_synonym str = "nat list"

abbreviation (input) ascii :: "string \<Rightarrow> str" where
  "ascii s \<equiv> map of_char s"

text \<open>
  \<open>str.lower()\<close>. The mapping is the one of Python for the code points below U+0100
  (A to Z, and the Latin-1 capitals U+00C0 to U+00DE without the multiplication sign
  U+00D7, each moved up by 32); code points from U+0100 on are left as they are.
\<close>

definition lower_cp :: "nat \<Rightarrow> nat" where
  "lower_cp c =
     (if (0x41 \<le> c \<and> c \<le> 0x5A) \<or> (0xC0 \<le> c \<and> c \<le> 0xDE \<and> c \<noteq> 0xD7)
      then c + 32 else c)"

definition lower :: "str \<Rightarrow> str" where
  "lower s = map lower_cp s"

text \<open>\<open>sub in s\<close> on strings: \<open>sub\<close> occurs in \<open>s\<close> as a contiguous run.\<close>

fun py_in :: "str \<Rightarrow> str \<Rightarrow> bool" where
  "py_in sub [] = (sub = [])"
| "py_in sub (c # s) = (prefix sub (c # s) \<or> py_in sub s)"

text \<open>
  \<open>str.isspace()\<close> of one code point and \<open>str.strip()\<close>: the leading and the
  trailing white space is removed.
\<close>

definition isspace :: "nat \<Rightarrow> bool" where
  "isspace c =
     ((0x09 \<le> c \<and> c \<le> 0x0D) \<or> (0x1C \<le> c \<and> c \<le> 0x20) \<or> c = 0x85 \<or> c = 0xA0
      \<or> c = 0x1680 \<or> (0x2000 \<le> c \<and> c \<le> 0x200A) \<or> c = 0x2028 \<or> c = 0x2029
      \<or> c = 0x202F \<or> c = 0x205F \<or> c = 0x3000)"

definition strip :: "str \<Rightarrow> str" where
  "strip s = rev (dropWhile isspace (rev (dropWhile isspace s)))"

section \<open>The addon object\<close>

text \<open>
  \<open>YouTubeInterceptor.__init__\<close> sets two attributes on \<open>self\<close>, never written
  again: the host patterns and the script to inject. \<open>self\<close> is a record, and
  \<open>YouTubeInterceptor\<close> is the object the constructor builds.
\<close>

record interceptor =
  youtube_domains :: "str list"
  injection_script :: str

definition YouTubeInterceptor :: interceptor where
  "YouTubeInterceptor =
   \<lparr> youtube_domains =
       [ascii ''youtube.com'', ascii ''m.youtube.com'', ascii ''www.youtube.com'',
        ascii ''music.youtube.com''],
     injection_script = ascii
    (''\<newline>'' @
     ''(function() {\<newline>'' @
     ''    // Function to safely log ytInitialData\<newline>'' @
     ''    function logYtInitialData() {\<newline>'' @
     ''        if (typeof window.ytInitialData !== 'undefined') {\<newline>'' @
     ''            console.log('=== YouTube Initial Data ===');\<newline>'' @
     ''            console.log(JSON.stringify(window.ytInitialData, null, 2));\<newline>'' @
     ''            console.log('=== End YouTube Initial Data ===');\<newline>'' @
     ''            \<newline>'' @
     ''            // Also store it in a global variable for easy access\<newline>'' @
     ''            window._capturedYtInitialData = window.ytInitialData;\<newline>'' @
     ''            \<newline>'' @
     ''            // Dispatch a custom event for external scripts\<newline>'' @
     ''            window.dispatchEvent(new CustomEvent('ytInitialDataCaptured', {\<newline>'' @
     ''                detail: window.ytInitialData\<newline>'' @
     ''            }));\<newline>'' @
     ''        } else {\<newline>'' @
     ''            console.log('ytInitialData not found on window object');\<newline>'' @
     ''        }\<newline>'' @
     ''    }\<newline>'' @
     ''    \<newline>'' @
     ''    // Try to log immediately if data is already available\<newline>'' @
     ''    if (document.readyState === 'loading') {\<newline>'' @
     ''        document.addEventListener('DOMContentLoaded', logYtInitialData);\<newline>'' @
     ''    } else {\<newline>'' @
     ''        logYtInitialData();\<newline>'' @
     ''    }\<newline>'' @
     ''    \<newline>'' @
     ''    // Also try after a short delay to catch dynamically loaded data\<newline>'' @
     ''    setTimeout(logYtInitialData, 1000);\<newline>'' @
     ''    setTimeout(logYtInitialData, 3000);\<newline>'' @
     ''    \<newline>'' @
     ''    // Monitor for changes to ytInitialData\<newline>'' @
     ''    let lastYtData = null;\<newline>'' @
     ''    setInterval(function() {\<newline>'' @
     ''        if (window.ytInitialData && JSON.stringify(window.ytInitialData) !== lastYtData) {\<newline>'' @
     ''            lastYtData = JSON.stringify(window.ytInitialData);\<newline>'' @
     ''            console.log('=== YouTube Initial Data Updated ===');\<newline>'' @
     ''            console.log(lastYtData);\<newline>'' @
     ''            console.log('=== End Updated Data ===');\<newline>'' @
     ''        }\<newline>'' @
     ''    }, 2000);\<newline>'' @
     ''})();\<newline>'') \<rparr>"

section \<open>Eligibility\<close>

text \<open>
  \<open>is_youtube_domain(self, host)\<close>. The host is \<open>None\<close> or a string; \<open>not host\<close>
  holds of \<open>None\<close> and of the empty string.
\<close>

definition is_youtube_domain :: "interceptor \<Rightarrow> str option \<Rightarrow> bool" where
  "is_youtube_domain self host =
     (case host of
        None \<Rightarrow> False
      | Some h \<Rightarrow>
          if h = [] then False
          else list_ex (\<lambda>domain. py_in domain (lower h)) (youtube_domains self))"

section \<open>The exchange\<close>

text \<open>
  The flow the proxy engine hands to \<open>response\<close>. The addon reads the request's
  \<open>pretty_host\<close> and \<open>pretty_url\<close> and the response's headers, under the literal
  names \<open>content-type\<close> and \<open>content-length\<close>, so the headers are a map from a header
  name to its value. The engine's own representation of the body is opaque to the
  addon, which reaches it through \<open>get_text\<close> and \<open>set_text\<close> only; it is the type
  parameter \<open>'b\<close>.
\<close>

record 'b Response =
  headers :: "str \<rightharpoonup> str"
  body :: 'b

record Request =
  pretty_host :: "str option"
  pretty_url :: str

record 'b HTTPFlow =
  flow_request :: Request
  flow_response :: "'b Response"

text \<open>\<open>is_html_response(self, response)\<close>; \<open>headers.get('content-type', '')\<close>.\<close>

definition is_html_response :: "'b Response \<Rightarrow> bool" where
  "is_html_response r =
     (let content_type =
            lower (case headers r (ascii ''content-type'') of None \<Rightarrow> [] | Some v \<Rightarrow> v)
      in py_in (ascii ''text/html'') content_type)"

section \<open>The document tree\<close>

text \<open>
  The tree of the parsing library: a \<open>Tag\<close> has a name, attributes and an ordered list
  of children; every other node is a \<open>NavigableString\<close>. The \<open>BeautifulSoup\<close> object is
  the list of the top-level nodes. The objects of the tree are mutable and the code
  holds references to them (\<open>head\<close>, \<open>html_tag\<close>); a reference is the path of child
  indices that leads from the document to the object.
\<close>

datatype PageElement =
    Tag str "(str \<times> str) list" "PageElement list"
  | NavigableString str

type_synonym soup = "PageElement list"
type_synonym ref = "nat list"

text \<open>A reference among the later siblings, seen from one sibling earlier.\<close>

fun shift :: "ref \<Rightarrow> ref" where
  "shift [] = []"
| "shift (i # p) = Suc i # p"

text \<open>
  \<open>soup.find(name)\<close>: the first tag of that name in document order (a tag before its
  children, the children from left to right), or \<open>None\<close>.
\<close>

fun find_tag :: "str \<Rightarrow> PageElement list \<Rightarrow> ref option" where
  "find_tag n [] = None"
| "find_tag n (NavigableString s # xs) = map_option shift (find_tag n xs)"
| "find_tag n (Tag m a cs # xs) =
     (if m = n then Some [0]
      else case find_tag n cs of
             Some p \<Rightarrow> Some (0 # p)
           | None \<Rightarrow> map_option shift (find_tag n xs))"

text \<open>The object a reference points to.\<close>

fun lookup :: "PageElement list \<Rightarrow> ref \<Rightarrow> PageElement option" where
  "lookup els [] = None"
| "lookup [] (i # p) = None"
| "lookup (x # xs) (0 # p) =
     (if p = [] then Some x
      else case x of Tag m a cs \<Rightarrow> lookup cs p | NavigableString s \<Rightarrow> None)"
| "lookup (x # xs) (Suc i # p) = lookup xs (i # p)"

text \<open>
  \<open>soup.new_tag(name)\<close>, the setter of \<open>tag.string\<close> (the children are replaced by one
  string) and \<open>tag.insert(position, new_child)\<close> on the tag a reference points to: the
  new child goes in front of the child at \<open>position\<close>, at the end when there are fewer
  children.
\<close>

definition new_tag :: "str \<Rightarrow> PageElement" where
  "new_tag n = Tag n [] []"

fun set_string :: "PageElement \<Rightarrow> str \<Rightarrow> PageElement" where
  "set_string (Tag m a cs) s = Tag m a [NavigableString s]"
| "set_string (NavigableString t) s = NavigableString t"

definition list_insert :: "'a list \<Rightarrow> nat \<Rightarrow> 'a \<Rightarrow> 'a list" where
  "list_insert xs position x = take position xs @ x # drop position xs"

fun tag_insert :: "PageElement list \<Rightarrow> ref \<Rightarrow> nat \<Rightarrow> PageElement \<Rightarrow> PageElement list" where
  "tag_insert els [] position new_child = els"
| "tag_insert [] (i # p) position new_child = []"
| "tag_insert (x # xs) (0 # p) position new_child =
     (case x of
        Tag m a cs \<Rightarrow>
          (if p = [] then Tag m a (list_insert cs position new_child)
           else Tag m a (tag_insert cs p position new_child)) # xs
      | NavigableString s \<Rightarrow> x # xs)"
| "tag_insert (x # xs) (Suc i # p) position new_child =
     x # tag_insert xs (i # p) position new_child"

text \<open>
  Lines 124 to 142 of \<open>response\<close>: the head is looked for; without one, a new head is
  put first into the \<open>html\<close> tag; without that tag either there is nothing to inject
  into (\<open>None\<close>). Then the script tag, its text the stripped \<open>injection_script\<close>, is put
  first into the head. The result is the tree as it is when line 145 serialises it.
  The tests \<open>if not head\<close> and \<open>if html_tag\<close> ask whether \<open>find\<close> returned a tag: a
  tag is true even when it has no children.
\<close>

definition script_tag :: "interceptor \<Rightarrow> PageElement" where
  "script_tag self = set_string (new_tag (ascii ''script'')) (strip (injection_script self))"

definition locate_head :: "soup \<Rightarrow> (soup \<times> ref) option" where
  "locate_head soup =
     (case find_tag (ascii ''head'') soup of
        Some head \<Rightarrow> Some (soup, head)
      | None \<Rightarrow>
          (case find_tag (ascii ''html'') soup of
             Some html_tag \<Rightarrow>
               Some (tag_insert soup html_tag 0 (new_tag (ascii ''head'')), html_tag @ [0])
           | None \<Rightarrow> None))"

definition inject_script :: "interceptor \<Rightarrow> soup \<Rightarrow> soup option" where
  "inject_script self soup =
     (case locate_head soup of
        None \<Rightarrow> None
      | Some (soup1, head) \<Rightarrow> Some (tag_insert soup1 head 0 (script_tag self)))"

section \<open>Exceptions, the log and the library calls\<close>

text \<open>
  An exception is a value. \<open>UnicodeEncodeError\<close> is the one \<open>str.encode\<close> raises;
  \<open>Raised msg\<close> is any other exception of class \<open>Exception\<close>, raised by a library.
\<close>

datatype exn = UnicodeEncodeError | Raised str

text \<open>The records the code sends to the logger, in the order of the source.\<close>

datatype event =
    Info_intercepting str
  | Error_parse exn
  | Warning_no_head_or_html
  | Info_injected str
  | Error_processing str exn

text \<open>
  \<open>response\<close> calls four operations of the proxy engine and of the parsing library,
  whose code is not part of the addon. They are parameters of the model, with no
  assumption on what they compute: decoding the body (\<open>get_text\<close>; the text, \<open>None\<close>,
  or an exception), parsing (\<open>BeautifulSoup(content, 'html.parser')\<close>), serialising the
  tree (\<open>str(soup)\<close>) and replacing the body (\<open>set_text\<close>, which returns the response
  as the call leaves it and the exception it raised, if any).
\<close>

record 'b libs =
  get_text :: "'b Response \<Rightarrow> exn + str option"
  BeautifulSoup :: "str \<Rightarrow> exn + soup"
  soup_str :: "soup \<Rightarrow> exn + str"
  set_text :: "str \<Rightarrow> 'b Response \<Rightarrow> 'b Response \<times> exn option"

text \<open>
  \<open>s.encode('utf-8')\<close>: one to four bytes for a code point, and \<open>UnicodeEncodeError\<close>
  at a surrogate. A \<open>str\<close> holds no code point above U+10FFFF, so the last branch is
  the one of the code points from U+10000 to U+10FFFF.
\<close>

definition utf8_cp :: "nat \<Rightarrow> exn + nat list" where
  "utf8_cp c =
     (if c < 0x80 then Inr [c]
      else if c < 0x800 then Inr [0xC0 + c div 0x40, 0x80 + c mod 0x40]
      else if 0xD800 \<le> c \<and> c \<le> 0xDFFF then Inl UnicodeEncodeError
      else if c < 0x10000 then
        Inr [0xE0 + c div 0x1000, 0x80 + c div 0x40 mod 0x40, 0x80 + c mod 0x40]
      else
        Inr [0xF0 + c div 0x40000, 0x80 + c div 0x1000 mod 0x40,
             0x80 + c div 0x40 mod 0x40, 0x80 + c mod 0x40])"

fun encode_utf8 :: "str \<Rightarrow> exn + nat list" where
  "encode_utf8 [] = Inr []"
| "encode_utf8 (c # s) =
     (case utf8_cp c of
        Inl e \<Rightarrow> Inl e
      | Inr bs \<Rightarrow> (case encode_utf8 s of Inl e \<Rightarrow> Inl e | Inr rest \<Rightarrow> Inr (bs @ rest)))"

text \<open>\<open>str(n)\<close> of a length: the decimal digits.\<close>

fun str_of_nat :: "nat \<Rightarrow> str" where
  "str_of_nat n = (if n < 10 then [48 + n] else str_of_nat (n div 10) @ [48 + n mod 10])"

declare str_of_nat.simps [simp del]

text \<open>The number a header value denotes: the value read as a decimal numeral.\<close>

fun decimal_acc :: "nat \<Rightarrow> str \<Rightarrow> nat option" where
  "decimal_acc acc [] = Some acc"
| "decimal_acc acc (c # s) =
     (if 48 \<le> c \<and> c \<le> 57 then decimal_acc (acc * 10 + (c - 48)) s else None)"

definition decimal_value :: "str \<Rightarrow> nat option" where
  "decimal_value s = (if s = [] then None else decimal_acc 0 s)"

section \<open>The handler\<close>

text \<open>
  Lines 101 to 145 of \<open>response\<close>, the part of the \<open>try\<close> block that reads the flow
  and writes nothing to it. Either control leaves the block there, by a \<open>return\<close> or by
  an exception, with the records logged so far (\<open>Inl\<close>), or line 145 is reached and
  yields \<open>modified_content\<close>, the serialised tree (\<open>Inr\<close>). The inner \<open>try\<close> around the
  parser turns its exception into a log record and a return.
\<close>

definition modified_content ::
  "interceptor \<Rightarrow> 'b libs \<Rightarrow> 'b HTTPFlow \<Rightarrow> (event list \<times> exn option) + str" where
  "modified_content self L flow =
     (let url = pretty_url (flow_request flow) in
      if \<not> is_youtube_domain self (pretty_host (flow_request flow)) then Inl ([], None)
      else if \<not> is_html_response (flow_response flow) then Inl ([], None)
      else
        (case get_text L (flow_response flow) of
           Inl e \<Rightarrow> Inl ([], Some e)
         | Inr None \<Rightarrow> Inl ([], None)
         | Inr (Some content) \<Rightarrow>
             (if content = [] then Inl ([], None)
              else
                (case BeautifulSoup L content of
                   Inl e \<Rightarrow> Inl ([Info_intercepting url, Error_parse e], None)
                 | Inr soup \<Rightarrow>
                     (case inject_script self soup of
                        None \<Rightarrow> Inl ([Info_intercepting url, Warning_no_head_or_html], None)
                      | Some soup' \<Rightarrow>
                          (case soup_str L soup' of
                             Inl e \<Rightarrow> Inl ([Info_intercepting url], Some e)
                           | Inr text \<Rightarrow> Inr text))))))"

text \<open>
  The whole \<open>try\<close> block (lines 101 to 153): the flow and the log as they are when
  control leaves the block, and the exception that left it, if any. From line 146 on
  the body is replaced (\<open>set_text\<close>), the new text is encoded and counted, and the
  \<open>content-length\<close> header is written; each of the first two steps may raise.
\<close>

definition try_block ::
  "interceptor \<Rightarrow> 'b libs \<Rightarrow> 'b HTTPFlow \<Rightarrow> ('b HTTPFlow \<times> event list) \<times> exn option" where
  "try_block self L flow =
     (let url = pretty_url (flow_request flow) in
      case modified_content self L flow of
        Inl (log, raised) \<Rightarrow> ((flow, log), raised)
      | Inr text \<Rightarrow>
          (case set_text L text (flow_response flow) of
             (r, Some e) \<Rightarrow> ((flow\<lparr>flow_response := r\<rparr>, [Info_intercepting url]), Some e)
           | (r, None) \<Rightarrow>
               (case encode_utf8 text of
                  Inl e \<Rightarrow> ((flow\<lparr>flow_response := r\<rparr>, [Info_intercepting url]), Some e)
                | Inr bytes \<Rightarrow>
                    ((flow\<lparr>flow_response :=
                        r\<lparr>headers :=
                          (headers r)(ascii ''content-length'' \<mapsto> str_of_nat (length bytes))\<rparr>\<rparr>,
                      [Info_intercepting url, Info_injected url]),
                     None))))"

text \<open>
  \<open>response(self, flow)\<close>: the \<open>try\<close> block, and the handler of \<open>except Exception\<close>,
  which logs the exception and returns. The method returns nothing; its effects are
  the flow it leaves and the records it logs.
\<close>

definition response ::
  "interceptor \<Rightarrow> 'b libs \<Rightarrow> 'b HTTPFlow \<Rightarrow> 'b HTTPFlow \<times> event list" where
  "response self L flow =
     (case try_block self L flow of
        ((flow', log), None) \<Rightarrow> (flow', log)
      | ((flow', log), Some e) \<Rightarrow>
          (flow', log @ [Error_processing (pretty_url (flow_request flow')) e]))"

section \<open>An environment for the examples\<close>

text \<open>
  The theorems below hold for every behaviour of the library calls. Their examples
  run in a small environment: the engine holds the body as text, \<open>set_text\<close> stores
  the new text, the serialiser writes tags and strings as they are, and the parser
  reads the documents of a table.
\<close>

definition render_attrs :: "(str \<times> str) list \<Rightarrow> str" where
  "render_attrs a = concat (map (\<lambda>(k, v). ascii '' '' @ k @ ascii ''='' @ [34] @ v @ [34]) a)"

fun render :: "PageElement list \<Rightarrow> str" where
  "render [] = []"
| "render (NavigableString s # xs) = s @ render xs"
| "render (Tag n a cs # xs) =
     ascii ''<'' @ n @ render_attrs a @ ascii ''>'' @ render cs @ ascii ''</'' @ n @ ascii ''>''
     @ render xs"

definition table_parser :: "(str \<times> soup) list \<Rightarrow> str \<Rightarrow> exn + soup" where
  "table_parser table content =
     (case map_of table content of
        None \<Rightarrow> Inl (Raised (ascii ''unknown document''))
      | Some soup \<Rightarrow> Inr soup)"

definition example_libs :: "(str \<times> soup) list \<Rightarrow> (str option) libs" where
  "example_libs table =
     \<lparr> get_text = (\<lambda>r. Inr (body r)),
       BeautifulSoup = table_parser table,
       soup_str = (\<lambda>soup. Inr (render soup)),
       set_text = (\<lambda>text r. (r\<lparr>body := Some text\<rparr>, None)) \<rparr>"

definition example_flow :: "str \<Rightarrow> str \<Rightarrow> str \<Rightarrow> (str option) HTTPFlow" where
  "example_flow host content_type text =
     \<lparr> flow_request = \<lparr> pretty_host = Some host, pretty_url = ascii ''https://'' @ host @ ascii ''/'' \<rparr>,
       flow_response =
         \<lparr> headers = [ascii ''content-type'' \<mapsto> content_type,
                      ascii ''content-length'' \<mapsto> str_of_nat (length text)],
           body = Some text \<rparr> \<rparr>"

text \<open>
  Three documents: one with a head, the document of the end-to-end scenario of the
  specification (\<open><html><body>hi</body></html>\<close>, no head), and a fragment with
  neither \<open>html\<close> nor \<open>head\<close>.
\<close>

definition doc_with_head :: soup where
  "doc_with_head =
     [Tag (ascii ''html'') []
        [Tag (ascii ''head'') [] [Tag (ascii ''title'') [] [NavigableString (ascii ''t'')]],
         Tag (ascii ''body'') [] [NavigableString (ascii ''hi'')]]]"

definition doc_without_head :: soup where
  "doc_without_head =
     [Tag (ascii ''html'') [] [Tag (ascii ''body'') [] [NavigableString (ascii ''hi'')]]]"

definition doc_fragment :: soup where
  "doc_fragment = [Tag (ascii ''p'') [] [NavigableString (ascii ''hi'')]]"

text \<open>The second document after the injection of the addon's script.\<close>

definition doc_injected :: soup where
  "doc_injected =
     [Tag (ascii ''html'') []
        [Tag (ascii ''head'') [] [script_tag YouTubeInterceptor],
         Tag (ascii ''body'') [] [NavigableString (ascii ''hi'')]]]"



text \<open>
  The flows of the examples. The first is the end-to-end scenario of the
  specification: host \<open>m.youtube.com\<close>, an HTML response, the document without a head.
  The second is the same response from \<open>google.com\<close>, the third carries the fragment,
  the fourth the document with the character reference.
\<close>

definition e2e_text :: str where
  "e2e_text = ascii ''<html><body>hi</body></html>''"

definition e2e_flow :: "(str option) HTTPFlow" where
  "e2e_flow =
     example_flow (ascii ''m.youtube.com'') (ascii ''text/html; charset=utf-8'') e2e_text"

definition google_flow :: "(str option) HTTPFlow" where
  "google_flow =
     example_flow (ascii ''google.com'') (ascii ''text/html; charset=utf-8'') e2e_text"

definition fragment_text :: str where
  "fragment_text = ascii ''<p>hi</p>''"

definition fragment_flow :: "(str option) HTTPFlow" where
  "fragment_flow =
     example_flow (ascii ''www.youtube.com'') (ascii ''text/html; charset=utf-8'') fragment_text"



text \<open>
  An engine that keeps the body as bytes in ISO-8859-1, one byte per code point:
  \<open>get_text\<close> decodes them, \<open>set_text\<close> encodes the new text and raises when a code
  point does not fit in a byte. With it, a response that declares this charset and
  holds the letter U+00E9, its tree, and the tree after the injection.
\<close>

definition latin1_libs :: "(str \<times> soup) list \<Rightarrow> (nat list) libs" where
  "latin1_libs table =
     \<lparr> get_text = (\<lambda>r. Inr (Some (body r))),
       BeautifulSoup = table_parser table,
       soup_str = (\<lambda>soup. Inr (render soup)),
       set_text = (\<lambda>text r.
         if list_all (\<lambda>c. c < 256) text then (r\<lparr>body := text\<rparr>, None)
         else (r, Some UnicodeEncodeError)) \<rparr>"

definition latin1_text :: str where
  "latin1_text = ascii ''<html><head></head><body>'' @ [0xE9] @ ascii ''</body></html>''"

definition latin1_doc :: soup where
  "latin1_doc =
     [Tag (ascii ''html'') []
        [Tag (ascii ''head'') [] [],
         Tag (ascii ''body'') [] [NavigableString [0xE9]]]]"

definition latin1_doc_injected :: soup where
  "latin1_doc_injected =
     [Tag (ascii ''html'') []
        [Tag (ascii ''head'') [] [script_tag YouTubeInterceptor],
         Tag (ascii ''body'') [] [NavigableString [0xE9]]]]"

definition latin1_flow :: "(nat list) HTTPFlow" where
  "latin1_flow =
     \<lparr> flow_request =
         \<lparr> pretty_host = Some (ascii ''www.youtube.com''),
           pretty_url = ascii ''https://www.youtube.com/'' \<rparr>,
       flow_response =
         \<lparr> headers = [ascii ''content-type'' \<mapsto> ascii ''text/html; charset=iso-8859-1'',
                      ascii ''content-length'' \<mapsto> str_of_nat (length latin1_text)],
           body = latin1_text \<rparr> \<rparr>"

section \<open>The serialiser\<close>








section \<open>The parser: the tokens\<close>




text \<open>The calls \<open>html.parser\<close> makes, in the order of the text.\<close>

datatype token =
    StartTag str "(str \<times> str) list"
  | StartEndTag str "(str \<times> str) list"
  | EndTag str
  | Data str







section \<open>The parser: the tree builder\<close>

text \<open>
  Beautiful Soup keeps a stack of the open elements. A frame is an open element: its
  name, its attributes and the children it has so far; the innermost one is first.
  \<open>root\<close> holds the elements of the top level. A run of text made of ASCII white space
  only becomes one newline when it has one, one space otherwise, unless a \<open>pre\<close> or
  \<open>textarea\<close> element is open.
\<close>

type_synonym frame = "str \<times> (str \<times> str) list \<times> PageElement list"




fun append_child :: "PageElement \<Rightarrow> frame list \<Rightarrow> soup \<Rightarrow> frame list \<times> soup" where
  "append_child x [] root = ([], root @ [x])"
| "append_child x ((n, a, cs) # st) root = ((n, a, cs @ [x]) # st, root)"


lemma append_child_length [simp]: "length (fst (append_child x st root)) = length st"
  by (cases st) auto






section \<open>Trees that the serialiser and the parser preserve\<close>











section \<open>Notions of the specification\<close>

text \<open>
  The single-pattern check: the host is not empty and, lower-cased, contains
  \<open>youtube.com\<close>. It is written from the words of the specification, to be compared
  with \<open>is_youtube_domain\<close>.
\<close>

definition single_pattern_check :: "str option \<Rightarrow> bool" where
  "single_pattern_check host =
     (case host of
        None \<Rightarrow> False
      | Some h \<Rightarrow> h \<noteq> [] \<and> sublist (ascii ''youtube.com'') (lower h))"

text \<open>
  Re-extracting the injected script from a tree: the text of the script element that
  is the first child of the head.
\<close>

definition injected_text :: "soup \<Rightarrow> str option" where
  "injected_text soup =
     (case find_tag (ascii ''head'') soup of
        None \<Rightarrow> None
      | Some head \<Rightarrow>
          (case lookup soup head of
             Some (Tag n a (Tag m b [NavigableString t] # cs)) \<Rightarrow>
               if m = ascii ''script'' then Some t else None
           | _ \<Rightarrow> None))"

section \<open>Strings: basic facts\<close>

lemma py_in_sublist: "py_in sub s = sublist sub s"
  by (induction s) (auto simp: sublist_Cons_right)

lemma lower_cp_idem: "lower_cp (lower_cp c) = lower_cp c"
  by (auto simp: lower_cp_def)

lemma lower_idem: "lower (lower s) = lower s"
  by (simp add: lower_def lower_cp_idem)

lemma lower_Nil_iff: "lower s = [] \<longleftrightarrow> s = []"
  by (simp add: lower_def)

lemma youtube_domains_init:
  "youtube_domains YouTubeInterceptor =
     [ascii ''youtube.com'', ascii ''m.youtube.com'', ascii ''www.youtube.com'',
      ascii ''music.youtube.com'']"
  by (simp add: YouTubeInterceptor_def)

lemma is_youtube_domain_Some:
  "is_youtube_domain self (Some h) \<longleftrightarrow>
     h \<noteq> [] \<and> (\<exists>d \<in> set (youtube_domains self). sublist d (lower h))"
  by (auto simp: is_youtube_domain_def list_ex_iff py_in_sublist)

lemma init_domains_nonempty: "[] \<notin> set (youtube_domains YouTubeInterceptor)"
  by (simp add: youtube_domains_init)

lemma init_domains_contain:
  "d \<in> set (youtube_domains YouTubeInterceptor) \<Longrightarrow> sublist (ascii ''youtube.com'') d"
  unfolding youtube_domains_init
  by (auto simp: sublist_code(3))

section \<open>Eligibility: the claims\<close>

text \<open>
  Claim C6. For every host \<open>h\<close>, \<open>is_youtube_domain\<close> holds if and only if the
  lower-cased host contains an entry of the rule set as a substring; two hosts that
  differ in case only (their lower-cased forms are equal) get the same answer; \<open>None\<close>
  and the empty string are refused.
\<close>

theorem is_youtube_domain_substring_match:
  "(is_youtube_domain YouTubeInterceptor (Some h) \<longleftrightarrow>
      (\<exists>d \<in> set (youtube_domains YouTubeInterceptor). sublist d (lower h)))
   \<and> (lower h' = lower h \<longrightarrow>
        is_youtube_domain YouTubeInterceptor (Some h') =
        is_youtube_domain YouTubeInterceptor (Some h))
   \<and> \<not> is_youtube_domain YouTubeInterceptor None
   \<and> \<not> is_youtube_domain YouTubeInterceptor (Some [])"
proof -
  have iff: "is_youtube_domain YouTubeInterceptor (Some k) \<longleftrightarrow>
      (\<exists>d \<in> set (youtube_domains YouTubeInterceptor). sublist d (lower k))" for k
  proof (cases "k = []")
    case True
    then show ?thesis
      using init_domains_nonempty by (auto simp: is_youtube_domain_Some lower_def)
  next
    case False
    then show ?thesis by (simp add: is_youtube_domain_Some)
  qed
  have "\<not> is_youtube_domain YouTubeInterceptor None"
    by (simp add: is_youtube_domain_def)
  moreover have "\<not> is_youtube_domain YouTubeInterceptor (Some [])"
    by (simp add: is_youtube_domain_def)
  ultimately show ?thesis
    using iff [of h] iff [of h'] by simp
qed

text \<open>
  The claim at \<open>M.YouTube.Com\<close> and \<open>m.youtube.com\<close>: both are accepted.
\<close>

theorem is_youtube_domain_substring_match_witness:
  "lower (ascii ''M.YouTube.Com'') = lower (ascii ''m.youtube.com'')
   \<and> ascii ''m.youtube.com'' \<in> set (youtube_domains YouTubeInterceptor)
   \<and> sublist (ascii ''m.youtube.com'') (lower (ascii ''m.youtube.com''))
   \<and> is_youtube_domain YouTubeInterceptor (Some (ascii ''M.YouTube.Com''))
   \<and> is_youtube_domain YouTubeInterceptor (Some (ascii ''m.youtube.com''))"
proof -
  have l: "lower (ascii ''M.YouTube.Com'') = lower (ascii ''m.youtube.com'')"
    by (simp add: lower_def lower_cp_def)
  have m: "ascii ''m.youtube.com'' \<in> set (youtube_domains YouTubeInterceptor)"
    by (simp add: youtube_domains_init)
  have s: "sublist (ascii ''m.youtube.com'') (lower (ascii ''m.youtube.com''))"
    by (simp add: lower_def lower_cp_def)
  show ?thesis
    using is_youtube_domain_substring_match
      [of "ascii ''m.youtube.com''" "ascii ''M.YouTube.Com''"] l m s
    by blast
qed

text \<open>
  Claim C7. For every value \<open>V\<close> of the \<open>content-type\<close> header,
  \<open>is_html_response\<close> holds if and only if \<open>V\<close> lower-cased contains \<open>text/html\<close>,
  whatever parameters surround it; a response without the header and one of type
  \<open>application/json\<close> are refused.
\<close>

theorem is_html_response_marker:
  "(headers r (ascii ''content-type'') = Some V \<longrightarrow>
      (is_html_response r \<longleftrightarrow> sublist (ascii ''text/html'') (lower V)))
   \<and> (headers r (ascii ''content-type'') = None \<longrightarrow> \<not> is_html_response r)
   \<and> (headers r (ascii ''content-type'') = Some (ascii ''application/json'') \<longrightarrow>
        \<not> is_html_response r)"
  by (auto simp: is_html_response_def py_in_sublist lower_def lower_cp_def sublist_code(3))

text \<open>
  The claim at \<open>Text/HTML; charset=utf-8\<close> (accepted), at no header and at
  \<open>application/json\<close> (both refused).
\<close>

theorem is_html_response_marker_witness:
  "headers \<lparr>headers = [ascii ''content-type'' \<mapsto> ascii ''Text/HTML; charset=utf-8''], body = ()\<rparr>
     (ascii ''content-type'') = Some (ascii ''Text/HTML; charset=utf-8'')
   \<and> is_html_response
       \<lparr>headers = [ascii ''content-type'' \<mapsto> ascii ''Text/HTML; charset=utf-8''], body = ()\<rparr>
   \<and> sublist (ascii ''text/html'') (lower (ascii ''Text/HTML; charset=utf-8''))
   \<and> headers \<lparr>headers = Map.empty, body = ()\<rparr> (ascii ''content-type'') = None
   \<and> \<not> is_html_response \<lparr>headers = Map.empty, body = ()\<rparr>
   \<and> headers \<lparr>headers = [ascii ''content-type'' \<mapsto> ascii ''application/json''], body = ()\<rparr>
       (ascii ''content-type'') = Some (ascii ''application/json'')
   \<and> \<not> is_html_response
       \<lparr>headers = [ascii ''content-type'' \<mapsto> ascii ''application/json''], body = ()\<rparr>"
proof -
  have s: "sublist (ascii ''text/html'') (lower (ascii ''Text/HTML; charset=utf-8''))"
    by (simp add: lower_def lower_cp_def sublist_code(3))
  have j: "\<not> sublist (ascii ''text/html'') (lower (ascii ''application/json''))"
    by (simp add: lower_def lower_cp_def sublist_code(3))
  show ?thesis
    using s j
      is_html_response_marker
        [of "\<lparr>headers = [ascii ''content-type'' \<mapsto> ascii ''Text/HTML; charset=utf-8''], body = ()\<rparr>"
            "ascii ''Text/HTML; charset=utf-8''"]
      is_html_response_marker [of "\<lparr>headers = Map.empty, body = ()\<rparr>" "[]"]
      is_html_response_marker
        [of "\<lparr>headers = [ascii ''content-type'' \<mapsto> ascii ''application/json''], body = ()\<rparr>"
            "ascii ''application/json''"]
    by simp
qed

text \<open>
  Claim C10. Every entry of the rule set contains \<open>youtube.com\<close>, so
  \<open>is_youtube_domain\<close> is the single-pattern check: the three other entries never
  change the answer.
\<close>

theorem youtube_domains_redundant:
  "(\<forall>d \<in> set (youtube_domains YouTubeInterceptor). sublist (ascii ''youtube.com'') d)
   \<and> is_youtube_domain YouTubeInterceptor host = single_pattern_check host"
proof -
  have all: "\<forall>d \<in> set (youtube_domains YouTubeInterceptor). sublist (ascii ''youtube.com'') d"
    using init_domains_contain by blast
  have "is_youtube_domain YouTubeInterceptor host = single_pattern_check host"
  proof (cases host)
    case None
    then show ?thesis by (simp add: is_youtube_domain_def single_pattern_check_def)
  next
    case (Some h)
    have "(\<exists>d \<in> set (youtube_domains YouTubeInterceptor). sublist d (lower h))
          \<longleftrightarrow> sublist (ascii ''youtube.com'') (lower h)"
    proof
      assume "\<exists>d \<in> set (youtube_domains YouTubeInterceptor). sublist d (lower h)"
      then obtain d where d: "d \<in> set (youtube_domains YouTubeInterceptor)"
        and s: "sublist d (lower h)" by blast
      from all d have "sublist (ascii ''youtube.com'') d" by blast
      with s show "sublist (ascii ''youtube.com'') (lower h)"
        using sublist_order.order_trans by blast
    next
      assume "sublist (ascii ''youtube.com'') (lower h)"
      moreover have "ascii ''youtube.com'' \<in> set (youtube_domains YouTubeInterceptor)"
        by (simp add: youtube_domains_init)
      ultimately show "\<exists>d \<in> set (youtube_domains YouTubeInterceptor). sublist d (lower h)"
        by blast
    qed
    with Some show ?thesis
      by (simp add: is_youtube_domain_Some single_pattern_check_def)
  qed
  with all show ?thesis by blast
qed

text \<open>
  The claim at the entry \<open>music.youtube.com\<close> and the host \<open>Music.YouTube.com\<close>.
\<close>

theorem youtube_domains_redundant_witness:
  "ascii ''music.youtube.com'' \<in> set (youtube_domains YouTubeInterceptor)
   \<and> sublist (ascii ''youtube.com'') (ascii ''music.youtube.com'')
   \<and> is_youtube_domain YouTubeInterceptor (Some (ascii ''Music.YouTube.com''))
   \<and> single_pattern_check (Some (ascii ''Music.YouTube.com''))"
proof -
  have m: "ascii ''music.youtube.com'' \<in> set (youtube_domains YouTubeInterceptor)"
    by (simp add: youtube_domains_init)
  have c: "single_pattern_check (Some (ascii ''Music.YouTube.com''))"
    by (simp add: single_pattern_check_def lower_def lower_cp_def sublist_code(3))
  show ?thesis
    using youtube_domains_redundant [of "Some (ascii ''Music.YouTube.com'')"] m c
    by blast
qed

section \<open>The document tree: references\<close>

lemma find_tag_nonempty: "find_tag n els = Some p \<Longrightarrow> p \<noteq> []"
  by (induction n els arbitrary: p rule: find_tag.induct)
     (auto split: if_splits option.splits elim: shift.elims)

lemma shift_append: "p \<noteq> [] \<Longrightarrow> shift (p @ r) = shift p @ r"
  by (cases p) simp_all

lemma lookup_shift: "p \<noteq> [] \<Longrightarrow> lookup (x # xs) (shift p) = lookup xs p"
  by (cases p) simp_all

lemma tag_insert_shift:
  "p \<noteq> [] \<Longrightarrow> tag_insert (x # xs) (shift p) k y = x # tag_insert xs p k y"
  by (cases p) simp_all

lemma find_tag_lookup:
  "find_tag n els = Some p \<Longrightarrow> \<exists>a cs. lookup els p = Some (Tag n a cs)"
proof (induction n els arbitrary: p rule: find_tag.induct)
  case (1 n)
  then show ?case by simp
next
  case (2 n s xs)
  then obtain q where q: "find_tag n xs = Some q" and p: "p = shift q" by auto
  from q have "q \<noteq> []" by (rule find_tag_nonempty)
  with 2 q p show ?case by (simp add: lookup_shift)
next
  case (3 n m a cs xs)
  show ?case
  proof (cases "m = n")
    case True
    with 3 have "p = [0]" by auto
    with True show ?thesis by (simp add: list_insert_def)
  next
    case False
    show ?thesis
    proof (cases "find_tag n cs")
      case None
      with 3 False obtain q where q: "find_tag n xs = Some q" and p: "p = shift q" by auto
      from q have "q \<noteq> []" by (rule find_tag_nonempty)
      with 3 False None q p show ?thesis by (simp add: lookup_shift)
    next
      case (Some q)
      with 3 False have p: "p = 0 # q" by simp
      from Some have "q \<noteq> []" by (rule find_tag_nonempty)
      with 3 False Some p show ?thesis by simp
    qed
  qed
qed

lemma lookup_tag_insert:
  "lookup els p = Some (Tag m a cs) \<Longrightarrow>
   lookup (tag_insert els p k y) p = Some (Tag m a (list_insert cs k y))"
  by (induction els p arbitrary: m a cs rule: lookup.induct)
     (auto split: if_splits PageElement.splits)

lemma lookup_tag_insert_below:
  "lookup els q = Some (Tag m a cs) \<Longrightarrow> r \<noteq> [] \<Longrightarrow>
   lookup (tag_insert els (q @ r) k y) q = Some (Tag m a (tag_insert cs r k y))"
  by (induction els q arbitrary: m a cs rule: lookup.induct)
     (auto split: if_splits PageElement.splits)

lemma find_tag_tag_insert:
  "find_tag n els = Some p \<Longrightarrow> find_tag n (tag_insert els p k y) = Some p"
proof (induction n els arbitrary: p rule: find_tag.induct)
  case (1 n)
  then show ?case by simp
next
  case (2 n s xs)
  then obtain q where q: "find_tag n xs = Some q" and p: "p = shift q" by auto
  from q have "q \<noteq> []" by (rule find_tag_nonempty)
  with 2 q p show ?case by (simp add: tag_insert_shift)
next
  case (3 n m a cs xs)
  show ?case
  proof (cases "m = n")
    case True
    with 3 have "p = [0]" by auto
    with True show ?thesis by (simp add: list_insert_def)
  next
    case False
    show ?thesis
    proof (cases "find_tag n cs")
      case None
      with 3 False obtain q where q: "find_tag n xs = Some q" and p: "p = shift q" by auto
      from q have "q \<noteq> []" by (rule find_tag_nonempty)
      with 3 False None q p show ?thesis by (simp add: tag_insert_shift)
    next
      case (Some q)
      with 3 False have p: "p = 0 # q" by simp
      from Some have "q \<noteq> []" by (rule find_tag_nonempty)
      with 3 False Some p show ?thesis by simp
    qed
  qed
qed

lemma find_tag_new_child:
  "find_tag n els = None \<Longrightarrow> find_tag m els = Some q \<Longrightarrow>
   find_tag n (tag_insert els q 0 (Tag n b ds)) = Some (q @ [0])"
proof (induction m els arbitrary: q rule: find_tag.induct)
  case (1 m)
  then show ?case by simp
next
  case (2 m s xs)
  then obtain q' where q': "find_tag m xs = Some q'" and q: "q = shift q'" by auto
  from q' have ne: "q' \<noteq> []" by (rule find_tag_nonempty)
  from 2 have "find_tag n xs = None" by simp
  with 2 q' q ne show ?case by (simp add: tag_insert_shift shift_append)
next
  case (3 m k a cs xs)
  from "3.prems"(1) have kn: "k \<noteq> n" and ncs: "find_tag n cs = None"
    and nxs: "find_tag n xs = None"
    by (auto split: if_splits option.splits)
  show ?case
  proof (cases "k = m")
    case True
    with 3 have "q = [0]" by auto
    with True kn show ?thesis by (simp add: list_insert_def)
  next
    case False
    show ?thesis
    proof (cases "find_tag m cs")
      case None
      with 3 False obtain q' where q': "find_tag m xs = Some q'" and q: "q = shift q'" by auto
      from q' have ne: "q' \<noteq> []" by (rule find_tag_nonempty)
      from "3.IH"(2) [OF False None nxs q'] kn ncs q ne show ?thesis
        by (simp add: tag_insert_shift shift_append)
    next
      case (Some q')
      with 3 False have q: "q = 0 # q'" by simp
      from Some have ne: "q' \<noteq> []" by (rule find_tag_nonempty)
      from "3.IH"(1) [OF False ncs Some] kn q ne show ?thesis by simp
    qed
  qed
qed

lemma lookup_child0:
  "lookup els q = Some (Tag m a (c # cs)) \<Longrightarrow> q \<noteq> [] \<Longrightarrow> lookup els (q @ [0]) = Some c"
  by (induction els q arbitrary: m a c cs rule: lookup.induct)
     (auto split: if_splits PageElement.splits)

section \<open>The injection\<close>

lemma script_tag_eq:
  "script_tag self = Tag (ascii ''script'') [] [NavigableString (strip (injection_script self))]"
  by (simp add: script_tag_def new_tag_def)

lemma inject_script_at_head:
  assumes "find_tag (ascii ''head'') soup = Some head"
  shows "\<exists>a cs soup'.
           lookup soup head = Some (Tag (ascii ''head'') a cs)
         \<and> inject_script self soup = Some soup'
         \<and> find_tag (ascii ''head'') soup' = Some head
         \<and> lookup soup' head = Some (Tag (ascii ''head'') a (script_tag self # cs))"
proof -
  from assms obtain a cs where l: "lookup soup head = Some (Tag (ascii ''head'') a cs)"
    using find_tag_lookup by blast
  let ?soup' = "tag_insert soup head 0 (script_tag self)"
  have i: "inject_script self soup = Some ?soup'"
    using assms by (simp add: inject_script_def locate_head_def)
  have f: "find_tag (ascii ''head'') ?soup' = Some head"
    using assms by (rule find_tag_tag_insert)
  have "lookup ?soup' head =
          Some (Tag (ascii ''head'') a (list_insert cs 0 (script_tag self)))"
    using l by (rule lookup_tag_insert)
  then have "lookup ?soup' head = Some (Tag (ascii ''head'') a (script_tag self # cs))"
    by (simp add: list_insert_def)
  with l i f show ?thesis by blast
qed

lemma inject_script_at_html:
  assumes "find_tag (ascii ''head'') soup = None"
    and "find_tag (ascii ''html'') soup = Some html_tag"
  shows "\<exists>a cs soup'.
           lookup soup html_tag = Some (Tag (ascii ''html'') a cs)
         \<and> inject_script self soup = Some soup'
         \<and> find_tag (ascii ''head'') soup' = Some (html_tag @ [0])
         \<and> lookup soup' html_tag =
             Some (Tag (ascii ''html'') a (Tag (ascii ''head'') [] [script_tag self] # cs))
         \<and> lookup soup' (html_tag @ [0]) = Some (Tag (ascii ''head'') [] [script_tag self])"
proof -
  from assms(2) obtain a cs where l: "lookup soup html_tag = Some (Tag (ascii ''html'') a cs)"
    using find_tag_lookup by blast
  let ?soup1 = "tag_insert soup html_tag 0 (new_tag (ascii ''head''))"
  let ?soup' = "tag_insert ?soup1 (html_tag @ [0]) 0 (script_tag self)"
  have i: "inject_script self soup = Some ?soup'"
    using assms by (simp add: inject_script_def locate_head_def)
  have f1: "find_tag (ascii ''head'') ?soup1 = Some (html_tag @ [0])"
    unfolding new_tag_def using assms by (rule find_tag_new_child)
  have f: "find_tag (ascii ''head'') ?soup' = Some (html_tag @ [0])"
    using f1 by (rule find_tag_tag_insert)
  have "lookup ?soup1 html_tag =
          Some (Tag (ascii ''html'') a (list_insert cs 0 (new_tag (ascii ''head''))))"
    using l by (rule lookup_tag_insert)
  then have l1: "lookup ?soup1 html_tag =
          Some (Tag (ascii ''html'') a (Tag (ascii ''head'') [] [] # cs))"
    by (simp add: list_insert_def new_tag_def)
  have "lookup ?soup' html_tag =
          Some (Tag (ascii ''html'') a
                 (tag_insert (Tag (ascii ''head'') [] [] # cs) [0] 0 (script_tag self)))"
    using l1 by (rule lookup_tag_insert_below) simp
  then have l2: "lookup ?soup' html_tag =
          Some (Tag (ascii ''html'') a (Tag (ascii ''head'') [] [script_tag self] # cs))"
    by (simp add: list_insert_def)
  from f obtain b ds where l3: "lookup ?soup' (html_tag @ [0]) = Some (Tag (ascii ''head'') b ds)"
    using find_tag_lookup by blast
  from assms(2) have ne: "html_tag \<noteq> []" by (rule find_tag_nonempty)
  have "lookup ?soup' (html_tag @ [0]) = Some (Tag (ascii ''head'') [] [script_tag self])"
    using l2 ne by (rule lookup_child0)
  with l i f l2 show ?thesis by blast
qed

text \<open>
  Claim C3. For every document tree that has a \<open>head\<close> element, the injection
  succeeds, and in the resulting tree the first child of that head, which is still
  the head \<open>find\<close> returns, is a script element whose only content is the payload
  stripped of leading and trailing white space; the former children follow it.
\<close>

theorem inject_into_existing_head:
  assumes "find_tag (ascii ''head'') soup = Some head"
  shows "\<exists>a cs soup'.
           lookup soup head = Some (Tag (ascii ''head'') a cs)
         \<and> inject_script self soup = Some soup'
         \<and> find_tag (ascii ''head'') soup' = Some head
         \<and> lookup soup' head =
             Some (Tag (ascii ''head'') a
                    (Tag (ascii ''script'') [] [NavigableString (strip (injection_script self))]
                     # cs))"
  using inject_script_at_head [OF assms, of self] unfolding script_tag_eq .

text \<open>
  The claim at a document with a head that holds a title.
\<close>

theorem inject_into_existing_head_witness:
  "find_tag (ascii ''head'') doc_with_head = Some [0, 0]
   \<and> (\<exists>a cs soup'.
           lookup doc_with_head [0, 0] = Some (Tag (ascii ''head'') a cs)
         \<and> inject_script YouTubeInterceptor doc_with_head = Some soup'
         \<and> find_tag (ascii ''head'') soup' = Some [0, 0]
         \<and> lookup soup' [0, 0] =
             Some (Tag (ascii ''head'') a
                    (Tag (ascii ''script'') []
                       [NavigableString (strip (injection_script YouTubeInterceptor))]
                     # cs)))"
proof -
  have h: "find_tag (ascii ''head'') doc_with_head = Some [0, 0]"
    by (simp add: doc_with_head_def)
  show ?thesis
    using h inject_into_existing_head [OF h, of YouTubeInterceptor] by blast
qed

text \<open>
  Claim C4. For every document tree with an \<open>html\<close> element and no \<open>head\<close>, the
  injection succeeds: a new head, empty but for the script element, is the first
  child of the \<open>html\<close> element, in front of its former children, and it is the head
  of the resulting tree.
\<close>

theorem inject_synthesizes_head:
  assumes "find_tag (ascii ''head'') soup = None"
    and "find_tag (ascii ''html'') soup = Some html_tag"
  shows "\<exists>a cs soup'.
           lookup soup html_tag = Some (Tag (ascii ''html'') a cs)
         \<and> inject_script self soup = Some soup'
         \<and> find_tag (ascii ''head'') soup' = Some (html_tag @ [0])
         \<and> lookup soup' html_tag =
             Some (Tag (ascii ''html'') a
                    (Tag (ascii ''head'') []
                       [Tag (ascii ''script'') []
                          [NavigableString (strip (injection_script self))]]
                     # cs))"
  using inject_script_at_html [OF assms, of self] unfolding script_tag_eq by blast

text \<open>
  The claim at \<open><html><body>hi</body></html>\<close>.
\<close>

theorem inject_synthesizes_head_witness:
  "find_tag (ascii ''head'') doc_without_head = None
   \<and> find_tag (ascii ''html'') doc_without_head = Some [0]
   \<and> (\<exists>a cs soup'.
           lookup doc_without_head [0] = Some (Tag (ascii ''html'') a cs)
         \<and> inject_script YouTubeInterceptor doc_without_head = Some soup'
         \<and> find_tag (ascii ''head'') soup' = Some ([0] @ [0])
         \<and> lookup soup' [0] =
             Some (Tag (ascii ''html'') a
                    (Tag (ascii ''head'') []
                       [Tag (ascii ''script'') []
                          [NavigableString (strip (injection_script YouTubeInterceptor))]]
                     # cs)))"
proof -
  have h: "find_tag (ascii ''head'') doc_without_head = None"
    by (simp add: doc_without_head_def)
  have t: "find_tag (ascii ''html'') doc_without_head = Some [0]"
    by (simp add: doc_without_head_def)
  show ?thesis
    using h t inject_synthesizes_head [OF h t, of YouTubeInterceptor] by blast
qed

lemma inject_doc_without_head:
  "inject_script YouTubeInterceptor doc_without_head = Some doc_injected"
  by (simp add: inject_script_def locate_head_def doc_without_head_def doc_injected_def
      new_tag_def list_insert_def)

lemma inject_script_Some_cases:
  assumes "inject_script self soup = Some soup'"
  shows "\<exists>head a cs. find_tag (ascii ''head'') soup' = Some head
           \<and> lookup soup' head = Some (Tag (ascii ''head'') a (script_tag self # cs))"
proof (cases "find_tag (ascii ''head'') soup")
  case (Some head)
  from inject_script_at_head [OF Some, of self] assms show ?thesis by auto
next
  case None
  with assms obtain html_tag where t: "find_tag (ascii ''html'') soup = Some html_tag"
    by (auto simp: inject_script_def locate_head_def split: option.splits)
  from inject_script_at_html [OF None t, of self] assms show ?thesis by auto
qed

text \<open>
  Claim C9. Nothing checks for an earlier injection: on every tree the injection has
  produced, a second injection succeeds again and puts a second copy of the script
  element in front of the first, so the tree changes once more.
\<close>

theorem injection_not_idempotent:
  assumes "inject_script self soup = Some soup1"
  shows "\<exists>head a cs soup2.
           find_tag (ascii ''head'') soup1 = Some head
         \<and> lookup soup1 head = Some (Tag (ascii ''head'') a (script_tag self # cs))
         \<and> inject_script self soup1 = Some soup2
         \<and> lookup soup2 head =
             Some (Tag (ascii ''head'') a (script_tag self # script_tag self # cs))
         \<and> soup2 \<noteq> soup1"
proof -
  from inject_script_Some_cases [OF assms] obtain head a cs
    where f: "find_tag (ascii ''head'') soup1 = Some head"
      and l: "lookup soup1 head = Some (Tag (ascii ''head'') a (script_tag self # cs))"
    by blast
  from inject_script_at_head [OF f, of self] l obtain soup2
    where i: "inject_script self soup1 = Some soup2"
      and l2: "lookup soup2 head =
                 Some (Tag (ascii ''head'') a (script_tag self # script_tag self # cs))"
    by auto
  from l l2 have "soup2 \<noteq> soup1" by auto
  with f l i l2 show ?thesis by blast
qed

text \<open>
  The claim at \<open><html><body>hi</body></html>\<close>, injected once.
\<close>

theorem injection_not_idempotent_witness:
  "inject_script YouTubeInterceptor doc_without_head = Some doc_injected
   \<and> (\<exists>head a cs soup2.
           find_tag (ascii ''head'') doc_injected = Some head
         \<and> lookup doc_injected head =
             Some (Tag (ascii ''head'') a (script_tag YouTubeInterceptor # cs))
         \<and> inject_script YouTubeInterceptor doc_injected = Some soup2
         \<and> lookup soup2 head =
             Some (Tag (ascii ''head'') a
                    (script_tag YouTubeInterceptor # script_tag YouTubeInterceptor # cs))
         \<and> soup2 \<noteq> doc_injected)"
  using inject_doc_without_head injection_not_idempotent [OF inject_doc_without_head]
  by blast

section \<open>The handler: its paths\<close>

lemma response_early_exit:
  "modified_content self L flow = Inl (log, raised) \<Longrightarrow>
   response self L flow =
     (flow, log @ (case raised of None \<Rightarrow> []
                   | Some e \<Rightarrow> [Error_processing (pretty_url (flow_request flow)) e]))"
  by (simp add: response_def try_block_def Let_def split: option.splits)

lemma response_set_text_raises:
  "modified_content self L flow = Inr t \<Longrightarrow>
   set_text L t (flow_response flow) = (r, Some e) \<Longrightarrow>
   response self L flow =
     (flow\<lparr>flow_response := r\<rparr>,
      [Info_intercepting (pretty_url (flow_request flow)),
       Error_processing (pretty_url (flow_request flow)) e])"
  by (simp add: response_def try_block_def Let_def)


lemma response_success:
  "modified_content self L flow = Inr t \<Longrightarrow>
   set_text L t (flow_response flow) = (r, None) \<Longrightarrow>
   encode_utf8 t = Inr bytes \<Longrightarrow>
   response self L flow =
     (flow\<lparr>flow_response :=
        r\<lparr>headers := (headers r)(ascii ''content-length'' \<mapsto> str_of_nat (length bytes))\<rparr>\<rparr>,
      [Info_intercepting (pretty_url (flow_request flow)),
       Info_injected (pretty_url (flow_request flow))])"
  by (simp add: response_def try_block_def Let_def)

lemma decimal_acc_append:
  "decimal_acc acc (s @ [48 + d]) =
     (case decimal_acc acc s of None \<Rightarrow> None | Some v \<Rightarrow> if d < 10 then Some (v * 10 + d) else None)"
  by (induction s arbitrary: acc) auto

lemma decimal_acc_str_of_nat: "decimal_acc 0 (str_of_nat n) = Some n"
proof (induction n rule: str_of_nat.induct)
  case (1 n)
  show ?case
  proof (cases "n < 10")
    case True
    then show ?thesis by (simp add: str_of_nat.simps [of n])
  next
    case False
    with 1 have "decimal_acc 0 (str_of_nat (n div 10)) = Some (n div 10)" by simp
    with False show ?thesis
      by (simp add: str_of_nat.simps [of n] decimal_acc_append)
  qed
qed

lemma str_of_nat_nonempty: "str_of_nat n \<noteq> []"
  by (simp add: str_of_nat.simps [of n])

lemma decimal_value_str_of_nat: "decimal_value (str_of_nat n) = Some n"
  by (simp add: decimal_value_def str_of_nat_nonempty decimal_acc_str_of_nat)

section \<open>Encoding and stripping\<close>

lemma ascii_less_256: "c \<in> set (ascii s) \<Longrightarrow> c < 256"
  by (auto simp: of_char_def) 

lemma utf8_cp_error: "utf8_cp c = Inl e \<Longrightarrow> e = UnicodeEncodeError"
  by (auto simp: utf8_cp_def split: if_splits)

lemma encode_utf8_error: "encode_utf8 s = Inl e \<Longrightarrow> e = UnicodeEncodeError"
  by (induction s) (auto split: sum.splits dest: utf8_cp_error)

lemma encode_utf8_no_surrogate:
  "\<forall>c \<in> set s. c < 0xD800 \<Longrightarrow> \<exists>bytes. encode_utf8 s = Inr bytes"
  by (induction s) (auto simp: utf8_cp_def split: sum.splits)


lemma set_strip: "set (strip s) \<subseteq> set s"
proof -
  have "set (strip s) = set (dropWhile isspace (rev (dropWhile isspace s)))"
    by (simp add: strip_def)
  also have "\<dots> \<subseteq> set (rev (dropWhile isspace s))"
    by (auto dest: set_dropWhileD)
  also have "\<dots> \<subseteq> set s"
    by (auto dest: set_dropWhileD)
  finally show ?thesis .
qed



lemma injection_script_ascii: "\<exists>s. injection_script YouTubeInterceptor = ascii s"
  unfolding YouTubeInterceptor_def interceptor.select_convs by (rule exI) (rule refl)


lemma payload_less_256: "c \<in> set (strip (injection_script YouTubeInterceptor)) \<Longrightarrow> c < 256"
proof -
  assume "c \<in> set (strip (injection_script YouTubeInterceptor))"
  then have c: "c \<in> set (injection_script YouTubeInterceptor)"
    using set_strip by blast
  obtain s where "injection_script YouTubeInterceptor = ascii s"
    using injection_script_ascii by blast
  with c show ?thesis by (simp add: ascii_less_256)
qed

section \<open>The examples\<close>

lemma eligible_m_youtube:
  "is_youtube_domain YouTubeInterceptor (Some (ascii ''m.youtube.com''))"
  by (simp add: is_youtube_domain_def youtube_domains_init lower_def lower_cp_def)

lemma eligible_www_youtube:
  "is_youtube_domain YouTubeInterceptor (Some (ascii ''www.youtube.com''))"
  by (simp add: is_youtube_domain_def youtube_domains_init lower_def lower_cp_def)

lemma not_eligible_google:
  "\<not> is_youtube_domain YouTubeInterceptor (Some (ascii ''google.com''))"
  by (simp add: is_youtube_domain_def youtube_domains_init lower_def lower_cp_def)

lemma html_example_flow:
  "is_html_response (flow_response (example_flow host (ascii ''text/html; charset=utf-8'') t))"
  by (simp add: is_html_response_def example_flow_def lower_def lower_cp_def)


lemma render_doc_injected:
  "render doc_injected =
     ascii ''<html><head><script>'' @ strip (injection_script YouTubeInterceptor)
     @ ascii ''</script></head><body>hi</body></html>''"
  by (simp add: doc_injected_def script_tag_eq render_attrs_def)


lemma modified_content_google:
  "modified_content YouTubeInterceptor L google_flow = Inl ([], None)"
  using not_eligible_google
  by (simp add: modified_content_def Let_def google_flow_def example_flow_def)




lemma injected_text_after_injection:
  assumes "inject_script self soup = Some soup'"
  shows "injected_text soup' = Some (strip (injection_script self))"
proof -
  from inject_script_Some_cases [OF assms] obtain head a cs
    where "find_tag (ascii ''head'') soup' = Some head"
      and "lookup soup' head = Some (Tag (ascii ''head'') a (script_tag self # cs))"
    by blast
  then show ?thesis
    by (simp add: injected_text_def script_tag_eq)
qed

section \<open>The handler: the claims\<close>

text \<open>
  Claim C5. For every document tree with neither an \<open>html\<close> nor a \<open>head\<close>
  element, nothing is injected and the handler returns the flow it received, body and
  headers included; it logs a warning and no error.
\<close>

theorem no_skeleton_is_noop:
  assumes "is_youtube_domain self (pretty_host (flow_request flow))"
    and "is_html_response (flow_response flow)"
    and "get_text L (flow_response flow) = Inr (Some content)"
    and "content \<noteq> []"
    and "BeautifulSoup L content = Inr soup"
    and "find_tag (ascii ''head'') soup = None"
    and "find_tag (ascii ''html'') soup = None"
  shows "inject_script self soup = None
       \<and> response self L flow =
           (flow, [Info_intercepting (pretty_url (flow_request flow)), Warning_no_head_or_html])"
proof -
  from assms(6,7) have n: "inject_script self soup = None"
    by (simp add: inject_script_def locate_head_def)
  with assms(1-5) have "modified_content self L flow =
      Inl ([Info_intercepting (pretty_url (flow_request flow)), Warning_no_head_or_html], None)"
    by (simp add: modified_content_def Let_def)
  then have "response self L flow =
      (flow, [Info_intercepting (pretty_url (flow_request flow)), Warning_no_head_or_html])"
    by (simp add: response_early_exit)
  with n show ?thesis by simp
qed

text \<open>
  The claim at the fragment \<open><p>hi</p>\<close>.
\<close>

theorem no_skeleton_is_noop_witness:
  "is_youtube_domain YouTubeInterceptor (pretty_host (flow_request fragment_flow))
   \<and> is_html_response (flow_response fragment_flow)
   \<and> get_text (example_libs [(fragment_text, doc_fragment)]) (flow_response fragment_flow)
       = Inr (Some fragment_text)
   \<and> fragment_text \<noteq> []
   \<and> BeautifulSoup (example_libs [(fragment_text, doc_fragment)]) fragment_text = Inr doc_fragment
   \<and> find_tag (ascii ''head'') doc_fragment = None
   \<and> find_tag (ascii ''html'') doc_fragment = None
   \<and> inject_script YouTubeInterceptor doc_fragment = None
   \<and> response YouTubeInterceptor (example_libs [(fragment_text, doc_fragment)]) fragment_flow =
       (fragment_flow,
        [Info_intercepting (pretty_url (flow_request fragment_flow)), Warning_no_head_or_html])"
proof -
  let ?L = "example_libs [(fragment_text, doc_fragment)]"
  have 1: "is_youtube_domain YouTubeInterceptor (pretty_host (flow_request fragment_flow))"
    using eligible_www_youtube by (simp add: fragment_flow_def example_flow_def)
  have 2: "is_html_response (flow_response fragment_flow)"
    unfolding fragment_flow_def by (rule html_example_flow)
  have 3: "get_text ?L (flow_response fragment_flow) = Inr (Some fragment_text)"
    by (simp add: example_libs_def fragment_flow_def example_flow_def)
  have 4: "fragment_text \<noteq> []" by (simp add: fragment_text_def)
  have 5: "BeautifulSoup ?L fragment_text = Inr doc_fragment"
    by (simp add: example_libs_def table_parser_def)
  have 6: "find_tag (ascii ''head'') doc_fragment = None"
    by (simp add: doc_fragment_def)
  have 7: "find_tag (ascii ''html'') doc_fragment = None"
    by (simp add: doc_fragment_def)
  show ?thesis
    using 1 2 3 4 5 6 7 no_skeleton_is_noop [OF 1 2 3 4 5 6 7] by blast
qed




section \<open>The declared length and the body\<close>

lemma encode_utf8_append:
  "encode_utf8 (xs @ ys) =
     (case encode_utf8 xs of
        Inl e \<Rightarrow> Inl e
      | Inr a \<Rightarrow> (case encode_utf8 ys of Inl e \<Rightarrow> Inl e | Inr b \<Rightarrow> Inr (a @ b)))"
  by (induction xs) (auto split: sum.splits)

lemma encode_utf8_ascii: "\<forall>c \<in> set s. c < 0x80 \<Longrightarrow> encode_utf8 s = Inr s"
  by (induction s) (auto simp: utf8_cp_def)

lemma injection_script_less_128:
  "list_all (\<lambda>c. c < 0x80) (injection_script YouTubeInterceptor)"
  by (simp add: YouTubeInterceptor_def)

lemma payload_less_128: "\<forall>c \<in> set (strip (injection_script YouTubeInterceptor)). c < 0x80"
  using injection_script_less_128 set_strip unfolding list_all_iff by blast

lemma inject_latin1_doc:
  "inject_script YouTubeInterceptor latin1_doc = Some latin1_doc_injected"
  by (simp add: inject_script_def locate_head_def latin1_doc_def latin1_doc_injected_def
      list_insert_def)

lemma render_latin1_doc_injected:
  "render latin1_doc_injected =
     (ascii ''<html><head><script>'' @ strip (injection_script YouTubeInterceptor)
      @ ascii ''</script></head><body>'') @ [0xE9] @ ascii ''</body></html>''"
  by (simp add: latin1_doc_injected_def script_tag_eq render_attrs_def)

lemma encode_latin1_doc_injected:
  "encode_utf8 (render latin1_doc_injected) =
     Inr ((ascii ''<html><head><script>'' @ strip (injection_script YouTubeInterceptor)
           @ ascii ''</script></head><body>'') @ [0xC3, 0xA9] @ ascii ''</body></html>'')"
proof -
  have a: "encode_utf8 (ascii ''<html><head><script>'' @ strip (injection_script YouTubeInterceptor)
           @ ascii ''</script></head><body>'') =
      Inr (ascii ''<html><head><script>'' @ strip (injection_script YouTubeInterceptor)
           @ ascii ''</script></head><body>'')"
    by (rule encode_utf8_ascii) (use payload_less_128 in auto)
  have b: "encode_utf8 [0xE9] = Inr [0xC3, 0xA9]"
    by (simp add: utf8_cp_def)
  have c: "encode_utf8 (ascii ''</body></html>'') = Inr (ascii ''</body></html>'')"
    by (rule encode_utf8_ascii) simp
  show ?thesis
    unfolding render_latin1_doc_injected
    by (simp only: encode_utf8_append [of _ "[0xE9] @ ascii ''</body></html>''"]
        encode_utf8_append [of "[0xE9]"] a b c sum.case)
qed

lemma modified_content_latin1:
  "modified_content YouTubeInterceptor (latin1_libs [(latin1_text, latin1_doc)]) latin1_flow =
     Inr (render latin1_doc_injected)"
proof -
  let ?L = "latin1_libs [(latin1_text, latin1_doc)]"
  have "is_youtube_domain YouTubeInterceptor (pretty_host (flow_request latin1_flow))"
    using eligible_www_youtube by (simp add: latin1_flow_def)
  moreover have "is_html_response (flow_response latin1_flow)"
    by (simp add: is_html_response_def latin1_flow_def lower_def lower_cp_def)
  moreover have "get_text ?L (flow_response latin1_flow) = Inr (Some latin1_text)"
    by (simp add: latin1_libs_def latin1_flow_def)
  moreover have "latin1_text \<noteq> []" by (simp add: latin1_text_def)
  moreover have "BeautifulSoup ?L latin1_text = Inr latin1_doc"
    by (simp add: latin1_libs_def table_parser_def)
  moreover have "soup_str ?L latin1_doc_injected = Inr (render latin1_doc_injected)"
    by (simp add: latin1_libs_def)
  ultimately show ?thesis
    by (simp add: modified_content_def Let_def inject_latin1_doc)
qed

lemma set_text_latin1:
  "set_text (latin1_libs table) (render latin1_doc_injected) r =
     (r\<lparr>body := render latin1_doc_injected\<rparr>, None)"
proof -
  have "\<forall>c \<in> set (render latin1_doc_injected). c < 256"
    unfolding render_latin1_doc_injected using payload_less_128 by fastforce
  then show ?thesis
    by (simp add: latin1_libs_def list_all_iff)
qed

text \<open>
  Claim C2 fails on the code. Line 150 counts the bytes of the UTF-8 encoding of the
  new text, whatever charset the response declares and the engine writes. Here the
  response declares ISO-8859-1 and holds the letter U+00E9, one byte in that charset
  and two in UTF-8. The handler reports the injection; the body it leaves is the
  injected text in ISO-8859-1, and the \<open>content-length\<close> it leaves reads one more
  than the number of bytes of that body.
\<close>

theorem content_length_exceeds_latin1_body:
  "snd (response YouTubeInterceptor (latin1_libs [(latin1_text, latin1_doc)]) latin1_flow) =
     [Info_intercepting (pretty_url (flow_request latin1_flow)),
      Info_injected (pretty_url (flow_request latin1_flow))]
   \<and> body (flow_response
        (fst (response YouTubeInterceptor (latin1_libs [(latin1_text, latin1_doc)]) latin1_flow)))
       = render latin1_doc_injected
   \<and> Option.bind
        (headers (flow_response
           (fst (response YouTubeInterceptor (latin1_libs [(latin1_text, latin1_doc)]) latin1_flow)))
           (ascii ''content-length''))
        decimal_value
       = Some (length (body (flow_response
           (fst (response YouTubeInterceptor (latin1_libs [(latin1_text, latin1_doc)])
              latin1_flow)))) + 1)"
proof -
  let ?bytes = "(ascii ''<html><head><script>'' @ strip (injection_script YouTubeInterceptor)
           @ ascii ''</script></head><body>'') @ [0xC3, 0xA9] @ ascii ''</body></html>''"
  have len: "length ?bytes = length (render latin1_doc_injected) + 1"
    unfolding render_latin1_doc_injected by simp
  have r: "response YouTubeInterceptor (latin1_libs [(latin1_text, latin1_doc)]) latin1_flow =
     (latin1_flow\<lparr>flow_response :=
        (flow_response latin1_flow)\<lparr>body := render latin1_doc_injected\<rparr>
          \<lparr>headers := (headers ((flow_response latin1_flow)\<lparr>body := render latin1_doc_injected\<rparr>))
             (ascii ''content-length'' \<mapsto> str_of_nat (length ?bytes))\<rparr>\<rparr>,
      [Info_intercepting (pretty_url (flow_request latin1_flow)),
       Info_injected (pretty_url (flow_request latin1_flow))])"
    by (rule response_success [OF modified_content_latin1 set_text_latin1
          encode_latin1_doc_injected])
  show ?thesis
    unfolding r using len by (simp add: decimal_value_str_of_nat)
qed

section \<open>The round trip\<close>




























































lemma map_option_append:
  "map_option ((@) xs) (map_option ((@) ys) z) = map_option ((@) (xs @ ys)) z"
  by (cases z) auto

lemma map_option_Cons:
  "map_option ((#) x) (map_option ((@) ys) z) = map_option ((@) (x # ys)) z"
  by (cases z) auto











































end
